theory Spec2Isabelle
  imports Main "HOL-Library.Char_ord"
begin

section \<open>The severity scale\<close>

text \<open>
  \<^verbatim>\<open>LogLevel\<close> is a C++ enumeration; \<^verbatim>\<open>log.cpp\<close> converts freely between it and its
  underlying integer type (\<^verbatim>\<open>static_cast\<close> in both directions, and \<^verbatim>\<open>std::stoi\<close> feeds an
  \<^verbatim>\<open>int\<close> into \<^verbatim>\<open>validateLogLevel\<close>). A level is therefore modelled by its underlying
  value, an integer, and both casts are the identity.
\<close>

type_synonym LogLevel = int

text \<open>
  The enumerators are declared in \<^verbatim>\<open>log.h\<close>. \<^verbatim>\<open>log.cpp\<close> decides with three of them
  (\<^verbatim>\<open>NoLog\<close>, \<^verbatim>\<open>Fatal\<close>, \<^verbatim>\<open>LastLogLevel\<close>); their values are a parameter of every function
  that mentions one, so that what is proved below holds for every numbering.
\<close>

record LogLevelEnum =
  NoLog :: LogLevel
  Fatal :: LogLevel
  LastLogLevel :: LogLevel

text \<open>
  Modelled from the spec: the values of the enumerators of \<^verbatim>\<open>LogLevel\<close> (header \<^verbatim>\<open>log.h\<close>).
  The spec has five real levels, \<^verbatim>\<open>Fatal\<close> the most severe with the lowest rank,
  \<^verbatim>\<open>LastLogLevel\<close> the most verbose real level, the legal levels being the integers of
  \<^verbatim>\<open>[0, LastLogLevel]\<close>, and \<^verbatim>\<open>NoLog\<close> lower than all real levels and outside that range.
\<close>

definition specLevels :: LogLevelEnum where
  "specLevels = \<lparr>NoLog = - 1, Fatal = 0, LastLogLevel = 4\<rparr>"

text \<open>
  The values the header \<^verbatim>\<open>log.h\<close> of fcitx5 gives the enumerators:
  \<^verbatim>\<open>enum LogLevel : int { NoLog = 0, Fatal = 1, Error = 2, Warn = 3, Info = 4, Debug = 5,
  LastLogLevel = Debug }\<close>. Here \<^verbatim>\<open>NoLog\<close> is the lower end of \<^verbatim>\<open>[0, LastLogLevel]\<close>, not a value
  outside it as in the numbering of the spec above.
\<close>

definition headerLevels :: LogLevelEnum where
  "headerLevels = \<lparr>NoLog = 0, Fatal = 1, LastLogLevel = 5\<rparr>"

definition validateLogLevel :: "LogLevelEnum \<Rightarrow> int \<Rightarrow> bool" where
  "validateLogLevel E l \<longleftrightarrow> l \<ge> 0 \<and> l \<le> LastLogLevel E"


section \<open>Categories\<close>

text \<open>
  The fields \<^verbatim>\<open>name_\<close>, \<^verbatim>\<open>level_\<close> and \<^verbatim>\<open>defaultLevel_\<close> of the private class, reached through
  the \<^verbatim>\<open>d\<close> pointer.
\<close>

record LogCategoryPrivate =
  d_name :: string
  d_level :: LogLevel
  d_defaultLevel :: LogLevel

definition LogCategoryPrivate_new :: "string \<Rightarrow> LogLevel \<Rightarrow> LogCategoryPrivate" where
  "LogCategoryPrivate_new nm level = \<lparr>d_name = nm, d_level = level, d_defaultLevel = level\<rparr>"

definition checkLogLevel :: "LogLevelEnum \<Rightarrow> LogCategoryPrivate \<Rightarrow> LogLevel \<Rightarrow> bool" where
  "checkLogLevel E d l \<longleftrightarrow> l \<noteq> NoLog E \<and> l \<le> d_level d"

definition resetLogLevel :: "LogCategoryPrivate \<Rightarrow> LogCategoryPrivate" where
  "resetLogLevel d = d\<lparr>d_level := d_defaultLevel d\<rparr>"

text \<open>The overload taking a \<^verbatim>\<open>LogLevel\<close>.\<close>

definition setLogLevel :: "LogLevel \<Rightarrow> LogCategoryPrivate \<Rightarrow> LogCategoryPrivate" where
  "setLogLevel l d = d\<lparr>d_level := l\<rparr>"

text \<open>The overload taking the underlying integer.\<close>

definition setLogLevel_int :: "LogLevelEnum \<Rightarrow> int \<Rightarrow> LogCategoryPrivate \<Rightarrow> LogCategoryPrivate" where
  "setLogLevel_int E l d = (if validateLogLevel E l then setLogLevel l d else d)"

definition logLevel :: "LogCategoryPrivate \<Rightarrow> LogLevel" where
  "logLevel d = d_level d"

definition name :: "LogCategoryPrivate \<Rightarrow> string" where
  "name d = d_name d"

text \<open>A call either returns a value or ends the process in \<^verbatim>\<open>std::abort\<close>.\<close>

datatype 'a outcome = Returns 'a | Aborts

definition fatalWrapper :: "LogLevelEnum \<Rightarrow> LogCategoryPrivate \<Rightarrow> LogLevel \<Rightarrow> bool outcome" where
  "fatalWrapper E d level =
     (let needLog = checkLogLevel E d level in
      if level = Fatal E \<and> \<not> needLog then Aborts else Returns needLog)"

definition fatalWrapper2 :: "LogLevelEnum \<Rightarrow> LogLevel \<Rightarrow> bool outcome" where
  "fatalWrapper2 E level = (if level = Fatal E then Aborts else Returns False)"


section \<open>The helpers of the rule parser\<close>

text \<open>
  Modelled from the spec: \<^verbatim>\<open>stringutils::split\<close> (declared in \<^verbatim>\<open>stringutils.h\<close>), which
  cuts a string at a separator into its pieces, returned in order. A character of the
  second argument separates. The spec does not say what becomes of an empty piece (two
  separators in a row, or one at an end of the string); the model produces none. The
  statements below speak of the pieces \<open>split\<close> returns, whatever they are, and the
  strings they are evaluated on have no empty piece.
\<close>

fun tokens :: "string \<Rightarrow> string \<Rightarrow> string \<Rightarrow> string list" where
  "tokens delim cur [] = (if cur = [] then [] else [cur])"
| "tokens delim cur (c # cs) =
     (if c \<in> set delim
      then (if cur = [] then tokens delim [] cs else cur # tokens delim [] cs)
      else tokens delim (cur @ [c]) cs)"

text \<open>
  Modelled from the spec: \<^verbatim>\<open>stringutils::split(str, delim)\<close>, the pieces of the whole of
  \<open>str\<close>, read from its first character.
\<close>

definition split :: "string \<Rightarrow> string \<Rightarrow> string list" where
  "split str delim = tokens delim [] str"

text \<open>
  \<^verbatim>\<open>std::stoi(str)\<close> of the C++ standard library, base 10: it skips leading white space,
  reads an optional sign and then the longest run of decimal digits, and ignores whatever
  follows them. It throws \<^verbatim>\<open>std::invalid_argument\<close> when there is no digit to convert and
  \<^verbatim>\<open>std::out_of_range\<close> when the value does not fit an \<^verbatim>\<open>int\<close> (32 bits).
\<close>

datatype stoi_exception = invalid_argument | out_of_range

definition isspace :: "char \<Rightarrow> bool" where
  "isspace c \<longleftrightarrow> c \<in> set [CHR '' '', CHR 0x09, CHR 0x0A, CHR 0x0B, CHR 0x0C, CHR 0x0D]"

definition isdigit :: "char \<Rightarrow> bool" where
  "isdigit c \<longleftrightarrow> CHR ''0'' \<le> c \<and> c \<le> CHR ''9''"

definition digit_value :: "char \<Rightarrow> int" where
  "digit_value c = int (of_char c) - 48"

definition decimal :: "string \<Rightarrow> int" where
  "decimal ds = foldl (\<lambda>acc c. 10 * acc + digit_value c) 0 ds"

definition stoi :: "string \<Rightarrow> stoi_exception + int" where
  "stoi str =
     (let s = dropWhile isspace str;
          negative = (s \<noteq> [] \<and> hd s = CHR ''-'');
          signed = (s \<noteq> [] \<and> (hd s = CHR ''-'' \<or> hd s = CHR ''+''));
          ds = takeWhile isdigit (if signed then tl s else s);
          v = (if negative then - decimal ds else decimal ds)
      in if ds = [] then Inl invalid_argument
         else if v < - 2147483648 \<or> 2147483647 < v then Inl out_of_range
         else Inr v)"


section \<open>The registry\<close>

text \<open>
  \<^verbatim>\<open>LogRegistry\<close> holds pointers to the live categories and the current rules. A pointer is
  an address, and the category objects live in a store indexed by address, so that two
  categories with one name stay two objects. The unordered set of pointers is a list
  without repetition; the order in which \<^verbatim>\<open>setLogRule\<close> walks it is the list's. The mutex
  is not modelled: every operation runs to its end alone.
\<close>

type_synonym addr = nat

record LogRegistry =
  categories :: "addr list"
  rules :: "(string \<times> LogLevel) list"
  objects :: "addr \<Rightarrow> LogCategoryPrivate"

text \<open>The loop of \<^verbatim>\<open>applyRule\<close> on one category object.\<close>

definition applyRules :: "(string \<times> LogLevel) list \<Rightarrow> LogCategoryPrivate \<Rightarrow> LogCategoryPrivate" where
  "applyRules rs d =
     fold (\<lambda>rule c. if fst rule = ''*'' \<or> fst rule = name c then setLogLevel (snd rule) c else c)
       rs (resetLogLevel d)"

definition applyRule :: "addr \<Rightarrow> LogRegistry \<Rightarrow> LogRegistry" where
  "applyRule category r = r\<lparr>objects := (objects r)(category := applyRules (rules r) (objects r category))\<rparr>"

definition registerCategory :: "addr \<Rightarrow> LogRegistry \<Rightarrow> LogRegistry" where
  "registerCategory category r =
     (if category \<notin> set (categories r)
      then applyRule category (r\<lparr>categories := categories r @ [category]\<rparr>)
      else r)"

definition unregisterCategory :: "addr \<Rightarrow> LogRegistry \<Rightarrow> LogRegistry" where
  "unregisterCategory category r = r\<lparr>categories := removeAll category (categories r)\<rparr>"

text \<open>
  The body of the first loop of \<^verbatim>\<open>setLogRule\<close>: one token, and the rules collected so far.
  Both exceptions of \<^verbatim>\<open>std::stoi\<close> are caught and the token is skipped.
\<close>

definition parseRule :: "LogLevelEnum \<Rightarrow> string \<Rightarrow> (string \<times> LogLevel) list \<Rightarrow> (string \<times> LogLevel) list" where
  "parseRule E rule acc =
     (let ruleItem = split rule ''='' in
      if length ruleItem \<noteq> 2 then acc
      else (case stoi (ruleItem ! 1) of
              Inl e \<Rightarrow> acc
            | Inr level \<Rightarrow>
                if validateLogLevel E level then acc @ [(ruleItem ! 0, level)] else acc))"

definition parseRules :: "LogLevelEnum \<Rightarrow> string \<Rightarrow> (string \<times> LogLevel) list" where
  "parseRules E ruleString = fold (parseRule E) (split ruleString '','') []"

definition setLogRule :: "LogLevelEnum \<Rightarrow> string \<Rightarrow> LogRegistry \<Rightarrow> LogRegistry" where
  "setLogRule E ruleString r =
     fold applyRule (categories r) (r\<lparr>rules := parseRules E ruleString\<rparr>)"

text \<open>
  The constructor of \<^verbatim>\<open>LogCategory\<close> builds the object at its address and registers it; the
  destructor unregisters it.
\<close>

definition LogCategory_new :: "addr \<Rightarrow> string \<Rightarrow> LogLevel \<Rightarrow> LogRegistry \<Rightarrow> LogRegistry" where
  "LogCategory_new category nm level r =
     registerCategory category
       (r\<lparr>objects := (objects r)(category := LogCategoryPrivate_new nm level)\<rparr>)"

definition LogCategory_delete :: "addr \<Rightarrow> LogRegistry \<Rightarrow> LogRegistry" where
  "LogCategory_delete category r = unregisterCategory category r"


text \<open>
  The registry as \<^verbatim>\<open>instance()\<close> first builds it: nothing tracked, no rule. The store is
  outside the registry; where no category has been constructed yet it holds a placeholder.
\<close>

definition LogRegistry_instance :: LogRegistry where
  "LogRegistry_instance =
     \<lparr>categories = [], rules = [], objects = (\<lambda>category. LogCategoryPrivate_new [] 0)\<rparr>"

text \<open>
  What a program can do to a registry and to the categories of the store, one call at a
  time; a run is a list of such calls, performed from left to right.
\<close>

datatype action =
    Register addr
  | Unregister addr
  | SetLogRule string
  | SetLogLevel addr LogLevel
  | SetLogLevelInt addr int
  | ResetLogLevel addr

definition on_object :: "addr \<Rightarrow> (LogCategoryPrivate \<Rightarrow> LogCategoryPrivate) \<Rightarrow> LogRegistry \<Rightarrow> LogRegistry" where
  "on_object category f r = r\<lparr>objects := (objects r)(category := f (objects r category))\<rparr>"

fun act :: "LogLevelEnum \<Rightarrow> action \<Rightarrow> LogRegistry \<Rightarrow> LogRegistry" where
  "act E (Register category) r = registerCategory category r"
| "act E (Unregister category) r = unregisterCategory category r"
| "act E (SetLogRule ruleString) r = setLogRule E ruleString r"
| "act E (SetLogLevel category l) r = on_object category (setLogLevel l) r"
| "act E (SetLogLevelInt category l) r = on_object category (setLogLevel_int E l) r"
| "act E (ResetLogLevel category) r = on_object category resetLogLevel r"

definition run :: "LogLevelEnum \<Rightarrow> action list \<Rightarrow> LogRegistry \<Rightarrow> LogRegistry" where
  "run E as r = fold (act E) as r"

text \<open>
  The rules that match a category name, in the words of the spec: the pattern is the
  wildcard or the exact name. The threshold they assign is the level of the last of
  them, and the default when there is none.
\<close>

definition matching :: "string \<Rightarrow> (string \<times> LogLevel) list \<Rightarrow> (string \<times> LogLevel) list" where
  "matching nm rs = filter (\<lambda>rule. fst rule = ''*'' \<or> fst rule = nm) rs"

definition ruleLevel :: "(string \<times> LogLevel) list \<Rightarrow> string \<Rightarrow> LogLevel \<Rightarrow> LogLevel" where
  "ruleLevel rs nm dflt = (if matching nm rs = [] then dflt else snd (last (matching nm rs)))"


text \<open>
  A small registry to run the operations on: on a fresh registry, category \<^verbatim>\<open>foo\<close> is
  constructed at address 0 and category \<^verbatim>\<open>bar\<close> at address 1, both with level 3.
\<close>

definition fooBar :: LogRegistry where
  "fooBar = LogCategory_new 1 ''bar'' 3 (LogCategory_new 0 ''foo'' 3 LogRegistry_instance)"


text \<open>
  The rule parser in the words of the spec, to compare \<^verbatim>\<open>setLogRule\<close> with. A token is kept
  when it splits on \<^verbatim>\<open>=\<close> into exactly two parts, the second part is an integer (an optional
  sign and then decimal digits, at least one and nothing else) and that integer is a legal
  level; every other token is dropped.
\<close>

definition isInteger :: "string \<Rightarrow> bool" where
  "isInteger v \<longleftrightarrow>
     (let ds = (if v \<noteq> [] \<and> (hd v = CHR ''-'' \<or> hd v = CHR ''+'') then tl v else v)
      in ds \<noteq> [] \<and> list_all isdigit ds)"

definition integerValue :: "string \<Rightarrow> int" where
  "integerValue v =
     (if v \<noteq> [] \<and> hd v = CHR ''-'' then - decimal (tl v)
      else if v \<noteq> [] \<and> hd v = CHR ''+'' then decimal (tl v)
      else decimal v)"

definition specRule :: "LogLevelEnum \<Rightarrow> string \<Rightarrow> (string \<times> LogLevel) option" where
  "specRule E token =
     (case split token ''='' of
        [pattern, v] \<Rightarrow>
          if isInteger v \<and> validateLogLevel E (integerValue v)
          then Some (pattern, integerValue v) else None
      | _ \<Rightarrow> None)"

definition parseRules_spec :: "LogLevelEnum \<Rightarrow> string \<Rightarrow> (string \<times> LogLevel) list" where
  "parseRules_spec E ruleString = List.map_filter (specRule E) (split ruleString '','')"

text \<open>
  What \<^verbatim>\<open>setLogRule\<close> makes of one token: the rule it appends, if any. The second part is
  whatever \<^verbatim>\<open>std::stoi\<close> converts.
\<close>

definition keptRule :: "LogLevelEnum \<Rightarrow> string \<Rightarrow> (string \<times> LogLevel) option" where
  "keptRule E token =
     (case split token ''='' of
        [pattern, v] \<Rightarrow>
          (case stoi v of
             Inl e \<Rightarrow> None
           | Inr level \<Rightarrow> if validateLogLevel E level then Some (pattern, level) else None)
      | _ \<Rightarrow> None)"


section \<open>Verified properties\<close>

subsection \<open>The threshold check\<close>

text \<open>
  C1. A category whose current threshold is \<open>L\<close> reports a check at level \<open>l\<close> enabled
  exactly when \<open>l\<close> is not \<^verbatim>\<open>NoLog\<close> and the rank of \<open>l\<close> is at most the rank of \<open>L\<close>;
  a check at \<^verbatim>\<open>NoLog\<close> is never enabled, whatever the threshold.
\<close>

theorem checkLogLevel_iff:
  "(logLevel d = L \<longrightarrow> (checkLogLevel E d l \<longleftrightarrow> l \<noteq> NoLog E \<and> l \<le> L))
   \<and> \<not> checkLogLevel E d (NoLog E)"
  by (simp add: checkLogLevel_def logLevel_def)

theorem checkLogLevel_iff_witness:
  "logLevel (LogCategoryPrivate_new ''foo'' 3) = 3
   \<and> checkLogLevel specLevels (LogCategoryPrivate_new ''foo'' 3) 2
   \<and> checkLogLevel specLevels (LogCategoryPrivate_new ''foo'' 3) 3
   \<and> \<not> checkLogLevel specLevels (LogCategoryPrivate_new ''foo'' 3) 4
   \<and> \<not> checkLogLevel specLevels (LogCategoryPrivate_new ''foo'' 3) (NoLog specLevels)"
  using checkLogLevel_iff [of "LogCategoryPrivate_new ''foo'' 3" 3 specLevels 2]
    checkLogLevel_iff [of "LogCategoryPrivate_new ''foo'' 3" 3 specLevels 3]
    checkLogLevel_iff [of "LogCategoryPrivate_new ''foo'' 3" 3 specLevels 4]
  by (simp add: logLevel_def LogCategoryPrivate_new_def specLevels_def)


subsection \<open>The fatal wrappers\<close>

text \<open>
  C5. A gating check at \<^verbatim>\<open>Fatal\<close> never fails silently: \<^verbatim>\<open>fatalWrapper\<close> at \<^verbatim>\<open>Fatal\<close> returns
  true when the threshold check passes and aborts the process when it does not, so it
  never returns false. At every other level it returns the result of the threshold check
  and does not abort.
\<close>

theorem fatalWrapper_logs_or_aborts:
  "fatalWrapper E d (Fatal E) = (if checkLogLevel E d (Fatal E) then Returns True else Aborts)
   \<and> fatalWrapper E d (Fatal E) \<noteq> Returns False
   \<and> (level \<noteq> Fatal E \<longrightarrow> fatalWrapper E d level = Returns (checkLogLevel E d level))"
  by (simp add: fatalWrapper_def Let_def)

theorem fatalWrapper_logs_or_aborts_witness:
  "fatalWrapper specLevels (LogCategoryPrivate_new ''foo'' (NoLog specLevels)) (Fatal specLevels) = Aborts
   \<and> fatalWrapper specLevels (LogCategoryPrivate_new ''foo'' 3) (Fatal specLevels) = Returns True
   \<and> (4::int) \<noteq> Fatal specLevels
   \<and> fatalWrapper specLevels (LogCategoryPrivate_new ''foo'' 3) 4 = Returns False
   \<and> fatalWrapper specLevels (LogCategoryPrivate_new ''foo'' 3) 2 = Returns True"
  using fatalWrapper_logs_or_aborts [of specLevels "LogCategoryPrivate_new ''foo'' (NoLog specLevels)" 4]
    fatalWrapper_logs_or_aborts [of specLevels "LogCategoryPrivate_new ''foo'' 3" 4]
    fatalWrapper_logs_or_aborts [of specLevels "LogCategoryPrivate_new ''foo'' 3" 2]
  by (simp add: checkLogLevel_def LogCategoryPrivate_new_def specLevels_def)

text \<open>
  C10. The forced-fatal query \<^verbatim>\<open>fatalWrapper2\<close> aborts the process when the level is
  \<^verbatim>\<open>Fatal\<close> and returns false at every other level. It takes no category: no threshold
  enters its result.
\<close>

theorem fatalWrapper2_aborts_or_false:
  "fatalWrapper2 E (Fatal E) = Aborts
   \<and> (level \<noteq> Fatal E \<longrightarrow> fatalWrapper2 E level = Returns False)"
  by (simp add: fatalWrapper2_def)

theorem fatalWrapper2_aborts_or_false_witness:
  "fatalWrapper2 specLevels (Fatal specLevels) = Aborts
   \<and> (3::int) \<noteq> Fatal specLevels
   \<and> fatalWrapper2 specLevels 3 = Returns False"
  using fatalWrapper2_aborts_or_false [of specLevels 3]
  by (simp add: specLevels_def)


subsection \<open>Applying rules to one category\<close>

lemma fold_rule_level:
  "fold (\<lambda>rule c. if fst rule = ''*'' \<or> fst rule = name c then setLogLevel (snd rule) c else c)
     rs (d\<lparr>d_level := x\<rparr>)
   = d\<lparr>d_level := (if matching (d_name d) rs = [] then x else snd (last (matching (d_name d) rs)))\<rparr>"
proof (induction rs arbitrary: x)
  case Nil
  show ?case by (simp add: matching_def)
next
  case (Cons rule rs)
  show ?case
  proof (cases "fst rule = ''*'' \<or> fst rule = d_name d")
    case True
    then show ?thesis
      using Cons.IH [of "snd rule"] by (auto simp add: matching_def name_def setLogLevel_def)
  next
    case False
    then show ?thesis
      using Cons.IH [of x] by (auto simp add: matching_def name_def setLogLevel_def)
  qed
qed

lemma applyRules_eq:
  "applyRules rs d = d\<lparr>d_level := ruleLevel rs (d_name d) (d_defaultLevel d)\<rparr>"
  unfolding applyRules_def resetLogLevel_def ruleLevel_def
  by (rule fold_rule_level)

lemma applyRules_idem: "applyRules rs (applyRules rs d) = applyRules rs d"
  by (simp add: applyRules_eq)

lemma applyRules_fields [simp]:
  "d_name (applyRules rs d) = d_name d"
  "d_defaultLevel (applyRules rs d) = d_defaultLevel d"
  "d_level (applyRules rs d) = ruleLevel rs (d_name d) (d_defaultLevel d)"
  by (simp_all add: applyRules_eq)

lemma applyRule_fields [simp]:
  "categories (applyRule c r) = categories r"
  "rules (applyRule c r) = rules r"
  "objects (applyRule c r) p = (if p = c then applyRules (rules r) (objects r c) else objects r p)"
  by (simp_all add: applyRule_def)

lemma fold_applyRule_fields:
  "categories (fold applyRule cs r) = categories r"
  "rules (fold applyRule cs r) = rules r"
  "objects (fold applyRule cs r) p
     = (if p \<in> set cs then applyRules (rules r) (objects r p) else objects r p)"
proof (induction cs arbitrary: r)
  case Nil
  { case 1 show ?case by simp }
  { case 2 show ?case by simp }
  { case 3 show ?case by simp }
next
  case (Cons c cs)
  { case 1 show ?case by (simp add: Cons.IH(1)) }
  { case 2 show ?case by (simp add: Cons.IH(2)) }
  { case 3 show ?case by (simp add: Cons.IH applyRules_idem) }
qed

lemma setLogRule_fields:
  "categories (setLogRule E s r) = categories r"
  "rules (setLogRule E s r) = parseRules E s"
  "objects (setLogRule E s r) p
     = (if p \<in> set (categories r) then applyRules (parseRules E s) (objects r p) else objects r p)"
  by (simp_all add: setLogRule_def fold_applyRule_fields)


lemma act_defaultLevel:
  "d_defaultLevel (objects (act E a r) p) = d_defaultLevel (objects r p)"
  by (cases a)
    (simp_all add: registerCategory_def unregisterCategory_def setLogRule_fields
      on_object_def setLogLevel_def setLogLevel_int_def resetLogLevel_def)

lemma run_defaultLevel:
  "d_defaultLevel (objects (run E as r) p) = d_defaultLevel (objects r p)"
  unfolding run_def by (induction as arbitrary: r) (simp_all add: act_defaultLevel)

lemma LogCategory_new_fields:
  "rules (LogCategory_new category nm L r) = rules r"
  "d_defaultLevel (objects (LogCategory_new category nm L r) category) = L"
  "d_name (objects (LogCategory_new category nm L r) category) = nm"
  "d_level (objects (LogCategory_new category nm L r) category)
     = (if category \<in> set (categories r) then L else ruleLevel (rules r) nm L)"
  by (simp_all add: LogCategory_new_def registerCategory_def LogCategoryPrivate_new_def)

lemma act_name:
  "d_name (objects (act E a r) p) = d_name (objects r p)"
  by (cases a)
    (simp_all add: registerCategory_def unregisterCategory_def setLogRule_fields
      on_object_def setLogLevel_def setLogLevel_int_def resetLogLevel_def)

lemma run_name:
  "d_name (objects (run E as r) p) = d_name (objects r p)"
  unfolding run_def by (induction as arbitrary: r) (simp_all add: act_name)


lemma parseRules_empty: "parseRules E [] = []"
  by (simp add: parseRules_def split_def)

lemma matching_empty_iff:
  "matching nm rs = [] \<longleftrightarrow> (\<forall>rule \<in> set rs. fst rule \<noteq> ''*'' \<and> fst rule \<noteq> nm)"
  by (auto simp add: matching_def filter_empty_conv)

lemma applyRules_snoc:
  "applyRules (rs @ [rule]) d
     = (if fst rule = ''*'' \<or> fst rule = name d then setLogLevel (snd rule) (applyRules rs d)
        else applyRules rs d)"
proof -
  have "applyRules (rs @ [rule]) d
     = (if fst rule = ''*'' \<or> fst rule = name (applyRules rs d)
        then setLogLevel (snd rule) (applyRules rs d) else applyRules rs d)"
    by (simp add: applyRules_def)
  moreover have "name (applyRules rs d) = name d"
    by (simp add: name_def)
  ultimately show ?thesis by simp
qed


subsection \<open>Setting the rules\<close>

text \<open>
  C2. After \<^verbatim>\<open>setLogRule\<close> on any rule string, a tracked category that no rule of the
  newly parsed rule set matches (no pattern is the wildcard or its name) has its
  threshold equal to its default, and its default is the one it had. In particular, when
  the string parses to no rule at all, as the empty string does, every tracked category
  is back at its own default. That default is the level the category was constructed
  with: for a category constructed with level \<open>L\<close> and name \<open>nm\<close>, after any run of
  calls, an unmatched \<open>nm\<close> leaves the threshold at \<open>L\<close> (last conjunct).
\<close>

theorem setLogRule_unmatched_default:
  assumes "category \<in> set (categories r)"
  shows "((\<forall>rule \<in> set (parseRules E ruleString).
             fst rule \<noteq> ''*'' \<and> fst rule \<noteq> name (objects r category))
          \<longrightarrow> logLevel (objects (setLogRule E ruleString r) category)
                = d_defaultLevel (objects r category))
       \<and> (parseRules E ruleString = []
          \<longrightarrow> logLevel (objects (setLogRule E ruleString r) category)
                = d_defaultLevel (objects r category))
       \<and> logLevel (objects (setLogRule E [] r) category) = d_defaultLevel (objects r category)
       \<and> d_defaultLevel (objects (setLogRule E ruleString r) category)
           = d_defaultLevel (objects r category)
       \<and> (r = run E as (LogCategory_new category nm L r0)
            \<and> (\<forall>rule \<in> set (parseRules E ruleString). fst rule \<noteq> ''*'' \<and> fst rule \<noteq> nm)
          \<longrightarrow> logLevel (objects (setLogRule E ruleString r) category) = L)"
proof -
  have level: "logLevel (objects (setLogRule E ruleString r) category)
      = ruleLevel (parseRules E ruleString) (d_name (objects r category))
          (d_defaultLevel (objects r category))"
    using assms by (simp add: setLogRule_fields logLevel_def)
  have unmatched: "(\<forall>rule \<in> set (parseRules E ruleString).
             fst rule \<noteq> ''*'' \<and> fst rule \<noteq> name (objects r category))
          \<longrightarrow> logLevel (objects (setLogRule E ruleString r) category)
                = d_defaultLevel (objects r category)"
    by (simp add: level ruleLevel_def matching_empty_iff name_def)
  have none: "parseRules E ruleString = []
          \<longrightarrow> logLevel (objects (setLogRule E ruleString r) category)
                = d_defaultLevel (objects r category)"
    by (simp add: level ruleLevel_def matching_def)
  have empty: "logLevel (objects (setLogRule E [] r) category)
      = d_defaultLevel (objects r category)"
    using assms
    by (simp add: setLogRule_fields logLevel_def parseRules_empty ruleLevel_def matching_def)
  have dflt: "d_defaultLevel (objects (setLogRule E ruleString r) category)
      = d_defaultLevel (objects r category)"
    by (simp add: setLogRule_fields)
  have made: "r = run E as (LogCategory_new category nm L r0)
            \<and> (\<forall>rule \<in> set (parseRules E ruleString). fst rule \<noteq> ''*'' \<and> fst rule \<noteq> nm)
          \<longrightarrow> logLevel (objects (setLogRule E ruleString r) category) = L"
  proof
    assume h: "r = run E as (LogCategory_new category nm L r0)
            \<and> (\<forall>rule \<in> set (parseRules E ruleString). fst rule \<noteq> ''*'' \<and> fst rule \<noteq> nm)"
    then have eq: "r = run E as (LogCategory_new category nm L r0)"
      by simp
    have n: "d_name (objects r category) = nm"
      unfolding eq by (simp add: run_name LogCategory_new_fields)
    have d: "d_defaultLevel (objects r category) = L"
      unfolding eq by (simp add: run_defaultLevel LogCategory_new_fields)
    have "matching nm (parseRules E ruleString) = []"
      using h by (simp add: matching_empty_iff)
    then show "logLevel (objects (setLogRule E ruleString r) category) = L"
      unfolding level n d by (simp add: ruleLevel_def)
  qed
  show ?thesis
    using unmatched none empty dflt made by blast
qed

theorem setLogRule_unmatched_default_witness:
  "1 \<in> set (categories (setLogRule specLevels ''*=1'' fooBar))
   \<and> logLevel (objects (setLogRule specLevels ''*=1'' fooBar) 1) = 1
   \<and> logLevel (objects (setLogRule specLevels ''foo=4,zzz'' (setLogRule specLevels ''*=1'' fooBar)) 1) = 3
   \<and> parseRules specLevels ''bar=x,bar=9,baz'' = []
   \<and> logLevel (objects (setLogRule specLevels ''bar=x,bar=9,baz'' (setLogRule specLevels ''*=1'' fooBar)) 1) = 3
   \<and> logLevel (objects (setLogRule specLevels [] (setLogRule specLevels ''*=1'' fooBar)) 1) = 3
   \<and> logLevel (objects (run specLevels [SetLogLevel 2 0, SetLogRule ''*=2'']
        (LogCategory_new 2 ''baz'' 3 fooBar)) 2) = 2
   \<and> logLevel (objects (setLogRule specLevels ''foo=4,zzz''
        (run specLevels [SetLogLevel 2 0, SetLogRule ''*=2'']
          (LogCategory_new 2 ''baz'' 3 fooBar))) 2) = 3"
proof -
  have tracked': "2 \<in> set (categories (run specLevels [SetLogLevel 2 0, SetLogRule ''*=2'']
        (LogCategory_new 2 ''baz'' 3 fooBar)))"
    by code_simp
  have unmatched': "\<forall>rule \<in> set (parseRules specLevels ''foo=4,zzz'').
      fst rule \<noteq> ''*'' \<and> fst rule \<noteq> ''baz''"
    by code_simp
  have before': "logLevel (objects (run specLevels [SetLogLevel 2 0, SetLogRule ''*=2'']
        (LogCategory_new 2 ''baz'' 3 fooBar)) 2) = 2"
    by code_simp
  have tracked: "1 \<in> set (categories (setLogRule specLevels ''*=1'' fooBar))"
    by code_simp
  have unmatched: "\<forall>rule \<in> set (parseRules specLevels ''foo=4,zzz'').
      fst rule \<noteq> ''*'' \<and> fst rule \<noteq> name (objects (setLogRule specLevels ''*=1'' fooBar) 1)"
    by code_simp
  have none: "parseRules specLevels ''bar=x,bar=9,baz'' = []"
    by code_simp
  have before: "logLevel (objects (setLogRule specLevels ''*=1'' fooBar) 1) = 1"
    by code_simp
  have dflt: "d_defaultLevel (objects (setLogRule specLevels ''*=1'' fooBar) 1) = 3"
    by code_simp
  show ?thesis
    using setLogRule_unmatched_default [OF tracked, of specLevels "''foo=4,zzz''"]
      setLogRule_unmatched_default [OF tracked, of specLevels "''bar=x,bar=9,baz''"]
      setLogRule_unmatched_default
        [where E = specLevels and ruleString = "''foo=4,zzz''" and nm = "''baz''" and L = 3
           and as = "[SetLogLevel 2 0, SetLogRule ''*=2'']" and ?r0.0 = fooBar, OF tracked']
      tracked unmatched none before dflt unmatched' before'
    by simp
qed


subsection \<open>The last matching rule wins\<close>

text \<open>
  C3. \<^verbatim>\<open>applyRule\<close> walks the rule list in order and every rule whose pattern is the
  wildcard or the exact name of the category overwrites the threshold with its level
  (first conjunct: the effect of one more rule at the end of the list), so the threshold
  it leaves is the level of the last matching rule, and the default when no rule matches
  (second conjunct). With the rule string \<^verbatim>\<open>*=2,foo=4\<close>, level 4 being a legal level, and
  tracked categories named \<^verbatim>\<open>foo\<close> and \<^verbatim>\<open>bar\<close>, the threshold of \<^verbatim>\<open>foo\<close> becomes 4 and that of
  \<^verbatim>\<open>bar\<close> becomes 2 (third conjunct).
\<close>

theorem applyRule_last_match_wins:
  "objects (applyRule category (r\<lparr>rules := rs @ [rule]\<rparr>)) category
     = (if fst rule = ''*'' \<or> fst rule = name (objects r category)
        then setLogLevel (snd rule) (objects (applyRule category (r\<lparr>rules := rs\<rparr>)) category)
        else objects (applyRule category (r\<lparr>rules := rs\<rparr>)) category)
   \<and> logLevel (objects (applyRule category r) category)
     = (if matching (name (objects r category)) (rules r) = []
        then d_defaultLevel (objects r category)
        else snd (last (matching (name (objects r category)) (rules r))))
   \<and> (4 \<le> LastLogLevel E \<and> foo \<in> set (categories r) \<and> bar \<in> set (categories r)
        \<and> name (objects r foo) = ''foo'' \<and> name (objects r bar) = ''bar''
      \<longrightarrow> rules (setLogRule E ''*=2,foo=4'' r) = [(''*'', 2), (''foo'', 4)]
          \<and> logLevel (objects (setLogRule E ''*=2,foo=4'' r) foo) = 4
          \<and> logLevel (objects (setLogRule E ''*=2,foo=4'' r) bar) = 2)"
proof (intro conjI impI)
  show "objects (applyRule category (r\<lparr>rules := rs @ [rule]\<rparr>)) category
     = (if fst rule = ''*'' \<or> fst rule = name (objects r category)
        then setLogLevel (snd rule) (objects (applyRule category (r\<lparr>rules := rs\<rparr>)) category)
        else objects (applyRule category (r\<lparr>rules := rs\<rparr>)) category)"
    by (simp add: applyRule_def applyRules_snoc)
next
  show "logLevel (objects (applyRule category r) category)
     = (if matching (name (objects r category)) (rules r) = []
        then d_defaultLevel (objects r category)
        else snd (last (matching (name (objects r category)) (rules r))))"
    by (simp add: logLevel_def ruleLevel_def name_def)
next
  assume a: "4 \<le> LastLogLevel E \<and> foo \<in> set (categories r) \<and> bar \<in> set (categories r)
        \<and> name (objects r foo) = ''foo'' \<and> name (objects r bar) = ''bar''"
  have p: "parseRules E ''*=2,foo=4'' = [(''*'', 2), (''foo'', 4)]"
    using a
    by (simp add: parseRules_def parseRule_def split_def stoi_def isspace_def isdigit_def
        decimal_def digit_value_def validateLogLevel_def)
  show "rules (setLogRule E ''*=2,foo=4'' r) = [(''*'', 2), (''foo'', 4)]"
    by (simp add: setLogRule_fields p)
  show "logLevel (objects (setLogRule E ''*=2,foo=4'' r) foo) = 4"
    using a by (simp add: setLogRule_fields p logLevel_def ruleLevel_def matching_def name_def)
  show "logLevel (objects (setLogRule E ''*=2,foo=4'' r) bar) = 2"
    using a by (simp add: setLogRule_fields p logLevel_def ruleLevel_def matching_def name_def)
qed

theorem applyRule_last_match_wins_witness:
  "4 \<le> LastLogLevel specLevels \<and> 0 \<in> set (categories fooBar) \<and> 1 \<in> set (categories fooBar)
   \<and> name (objects fooBar 0) = ''foo'' \<and> name (objects fooBar 1) = ''bar''
   \<and> logLevel (objects fooBar 0) = 3 \<and> logLevel (objects fooBar 1) = 3
   \<and> rules (setLogRule specLevels ''*=2,foo=4'' fooBar) = [(''*'', 2), (''foo'', 4)]
   \<and> logLevel (objects (setLogRule specLevels ''*=2,foo=4'' fooBar) 0) = 4
   \<and> logLevel (objects (setLogRule specLevels ''*=2,foo=4'' fooBar) 1) = 2"
proof -
  have h: "4 \<le> LastLogLevel specLevels \<and> 0 \<in> set (categories fooBar) \<and> 1 \<in> set (categories fooBar)
     \<and> name (objects fooBar 0) = ''foo'' \<and> name (objects fooBar 1) = ''bar''"
    by code_simp
  have l: "logLevel (objects fooBar 0) = 3 \<and> logLevel (objects fooBar 1) = 3"
    by code_simp
  show ?thesis
    using applyRule_last_match_wins [where E = specLevels and r = fooBar and foo = 0 and bar = 1] h l
    by simp
qed


subsection \<open>Registering and unregistering\<close>

lemma unregisterCategory_fields [simp]:
  "categories (unregisterCategory category r) = removeAll category (categories r)"
  "rules (unregisterCategory category r) = rules r"
  "objects (unregisterCategory category r) = objects r"
  by (simp_all add: unregisterCategory_def)

lemma fold_setLogRule_categories:
  "categories (fold (setLogRule E) ss r) = categories r"
  by (induction ss arbitrary: r) (simp_all add: setLogRule_fields)

lemma fold_setLogRule_untracked:
  "p \<notin> set (categories r) \<Longrightarrow> objects (fold (setLogRule E) ss r) p = objects r p"
  by (induction ss arbitrary: r) (simp_all add: setLogRule_fields)

text \<open>
  C4. Registering a category that is not tracked yet adds it to the tracked set and leaves
  its threshold at the one derived from the current rules: the level of the last rule that
  matches its name, and its default when no rule matches; no other object changes. A
  category constructed with initial level \<open>L\<close> while rules are in force is therefore at
  the rule-derived threshold right after its construction. Registering a category that is
  tracked already changes nothing.
\<close>

theorem registerCategory_rule_derived:
  "(category \<notin> set (categories r) \<longrightarrow>
      category \<in> set (categories (registerCategory category r))
      \<and> objects (registerCategory category r) category = applyRules (rules r) (objects r category)
      \<and> logLevel (objects (registerCategory category r) category)
          = (if matching (name (objects r category)) (rules r) = []
             then d_defaultLevel (objects r category)
             else snd (last (matching (name (objects r category)) (rules r))))
      \<and> (p \<noteq> category \<longrightarrow> objects (registerCategory category r) p = objects r p)
      \<and> logLevel (objects (LogCategory_new category nm L r) category)
          = (if matching nm (rules r) = [] then L else snd (last (matching nm (rules r)))))
   \<and> (category \<in> set (categories r) \<longrightarrow> registerCategory category r = r)"
  by (simp add: registerCategory_def LogCategory_new_def LogCategoryPrivate_new_def
      logLevel_def name_def ruleLevel_def)

theorem registerCategory_rule_derived_witness:
  "2 \<notin> set (categories (setLogRule specLevels ''*=2,baz=4'' fooBar))
   \<and> rules (setLogRule specLevels ''*=2,baz=4'' fooBar) = [(''*'', 2), (''baz'', 4)]
   \<and> logLevel (objects (LogCategory_new 2 ''baz'' 1 (setLogRule specLevels ''*=2,baz=4'' fooBar)) 2) = 4
   \<and> logLevel (objects (LogCategory_new 2 ''qux'' 1 (setLogRule specLevels ''*=2,baz=4'' fooBar)) 2) = 2
   \<and> logLevel (objects (LogCategory_new 2 ''qux'' 1 (setLogRule specLevels ''zzz=2,baz=4'' fooBar)) 2) = 1
   \<and> 0 \<in> set (categories fooBar)
   \<and> registerCategory 0 fooBar = fooBar"
proof -
  have fresh: "2 \<notin> set (categories (setLogRule specLevels ''*=2,baz=4'' fooBar))"
      "2 \<notin> set (categories (setLogRule specLevels ''zzz=2,baz=4'' fooBar))"
    by code_simp+
  have rs: "rules (setLogRule specLevels ''*=2,baz=4'' fooBar) = [(''*'', 2), (''baz'', 4)]"
      "rules (setLogRule specLevels ''zzz=2,baz=4'' fooBar) = [(''zzz'', 2), (''baz'', 4)]"
    by code_simp+
  have tracked: "0 \<in> set (categories fooBar)"
    by code_simp
  show ?thesis
    using registerCategory_rule_derived
        [where category = 2 and r = "setLogRule specLevels ''*=2,baz=4'' fooBar"
           and nm = "''baz''" and L = 1]
      registerCategory_rule_derived
        [where category = 2 and r = "setLogRule specLevels ''*=2,baz=4'' fooBar"
           and nm = "''qux''" and L = 1]
      registerCategory_rule_derived
        [where category = 2 and r = "setLogRule specLevels ''zzz=2,baz=4'' fooBar"
           and nm = "''qux''" and L = 1]
      registerCategory_rule_derived [where category = 0 and r = fooBar]
      fresh rs tracked
    by (simp add: matching_def)
qed

text \<open>
  C9. Once a category is unregistered, later calls of \<^verbatim>\<open>setLogRule\<close>, however many and with
  whatever rule strings, leave its object as it was and do not put it back into the
  tracked set. Unregistering a category that is not tracked changes nothing.
\<close>

theorem unregistered_category_untouched:
  "objects (fold (setLogRule E) ruleStrings (unregisterCategory category r)) category
     = objects r category
   \<and> category \<notin> set (categories (fold (setLogRule E) ruleStrings (unregisterCategory category r)))
   \<and> objects (setLogRule E ruleString (unregisterCategory category r)) category
     = objects r category
   \<and> category \<notin> set (categories (setLogRule E ruleString (unregisterCategory category r)))
   \<and> (category \<notin> set (categories r) \<longrightarrow> unregisterCategory category r = r)"
  by (simp add: fold_setLogRule_categories fold_setLogRule_untracked setLogRule_fields
      unregisterCategory_def)

theorem unregistered_category_untouched_witness:
  "logLevel (objects fooBar 0) = 3
   \<and> logLevel (objects (setLogRule specLevels ''*=1'' fooBar) 0) = 1
   \<and> logLevel (objects (setLogRule specLevels ''*=1'' (unregisterCategory 0 fooBar)) 0) = 3
   \<and> logLevel (objects (setLogRule specLevels ''*=1'' (unregisterCategory 0 fooBar)) 1) = 1
   \<and> categories (setLogRule specLevels ''*=1'' (unregisterCategory 0 fooBar)) = [1]
   \<and> 5 \<notin> set (categories fooBar)
   \<and> unregisterCategory 5 fooBar = fooBar"
proof -
  have a: "logLevel (objects fooBar 0) = 3"
      "logLevel (objects (setLogRule specLevels ''*=1'' fooBar) 0) = 1"
      "logLevel (objects (setLogRule specLevels ''*=1'' (unregisterCategory 0 fooBar)) 1) = 1"
      "categories (setLogRule specLevels ''*=1'' (unregisterCategory 0 fooBar)) = [1]"
      "5 \<notin> set (categories fooBar)"
    by code_simp+
  show ?thesis
    using unregistered_category_untouched
        [where category = 0 and r = fooBar and E = specLevels and ruleString = "''*=1''"]
      unregistered_category_untouched [where category = 5 and r = fooBar] a
    by simp
qed


subsection \<open>The default of a category\<close>

text \<open>
  C8. Take a category constructed with level \<open>L\<close> and any finite run of calls after its
  construction: typed and raw-integer \<^verbatim>\<open>setLogLevel\<close> on any category, resets, registrations,
  unregistrations and rule updates. Its default is still \<open>L\<close>, and one \<^verbatim>\<open>resetLogLevel\<close>
  brings its current threshold back to exactly \<open>L\<close>.
\<close>

theorem resetLogLevel_restores_default:
  "d_defaultLevel (objects (run E as (LogCategory_new category nm L r)) category) = L
   \<and> logLevel (resetLogLevel (objects (run E as (LogCategory_new category nm L r)) category)) = L
   \<and> logLevel (objects (run E (as @ [ResetLogLevel category]) (LogCategory_new category nm L r))
        category) = L"
proof -
  have d: "d_defaultLevel (objects (run E as (LogCategory_new category nm L r)) category) = L"
    by (simp add: run_defaultLevel LogCategory_new_fields)
  have "run E (as @ [ResetLogLevel category]) (LogCategory_new category nm L r)
      = on_object category resetLogLevel (run E as (LogCategory_new category nm L r))"
    by (simp add: run_def)
  then show ?thesis
    using d by (simp add: logLevel_def resetLogLevel_def on_object_def)
qed

theorem resetLogLevel_restores_default_witness:
  "logLevel (objects (run specLevels
       [SetLogLevel 2 0, SetLogRule ''*=2,baz=4'', SetLogLevelInt 2 1, SetLogLevelInt 2 7]
       (LogCategory_new 2 ''baz'' 3 fooBar)) 2) = 1
   \<and> logLevel (objects (run specLevels
       ([SetLogLevel 2 0, SetLogRule ''*=2,baz=4'', SetLogLevelInt 2 1, SetLogLevelInt 2 7]
          @ [ResetLogLevel 2])
       (LogCategory_new 2 ''baz'' 3 fooBar)) 2) = 3"
proof -
  have "logLevel (objects (run specLevels
       [SetLogLevel 2 0, SetLogRule ''*=2,baz=4'', SetLogLevelInt 2 1, SetLogLevelInt 2 7]
       (LogCategory_new 2 ''baz'' 3 fooBar)) 2) = 1"
    by code_simp
  then show ?thesis
    using resetLogLevel_restores_default
      [of specLevels
        "[SetLogLevel 2 0, SetLogRule ''*=2,baz=4'', SetLogLevelInt 2 1, SetLogLevelInt 2 7]"
        2 "''baz''" 3 fooBar]
    by simp
qed


subsection \<open>Parsing a rule string\<close>

lemma parseRule_eq:
  "parseRule E token acc = acc @ (case keptRule E token of None \<Rightarrow> [] | Some rule \<Rightarrow> [rule])"
proof (cases "\<exists>pattern v. split token ''='' = [pattern, v]")
  case True
  then obtain pattern v where "split token ''='' = [pattern, v]" by blast
  then show ?thesis
    by (simp add: parseRule_def keptRule_def split: sum.splits)
next
  case False
  then have "length (split token ''='') \<noteq> 2"
    by (metis length_0_conv length_Suc_conv numeral_2_eq_2)
  moreover have "keptRule E token = None"
    using False by (auto simp add: keptRule_def split: list.splits)
  ultimately show ?thesis
    by (simp add: parseRule_def)
qed

lemma fold_parseRule:
  "fold (parseRule E) ts acc = acc @ List.map_filter (keptRule E) ts"
proof (induction ts arbitrary: acc)
  case Nil
  show ?case by (simp add: List.map_filter_simps)
next
  case (Cons t ts)
  have "fold (parseRule E) (t # ts) acc = fold (parseRule E) ts (parseRule E t acc)"
    by simp
  also have "\<dots> = parseRule E t acc @ List.map_filter (keptRule E) ts"
    by (rule Cons.IH)
  also have "\<dots> = acc @ List.map_filter (keptRule E) (t # ts)"
    by (cases "keptRule E t") (simp_all add: parseRule_eq List.map_filter_simps)
  finally show ?case .
qed

lemma parseRules_map_filter:
  "parseRules E ruleString = List.map_filter (keptRule E) (split ruleString '','')"
  by (simp add: parseRules_def fold_parseRule)

lemma keptRule_Some_iff:
  "keptRule E token = Some rule
     \<longleftrightarrow> (\<exists>v. split token ''='' = [fst rule, v] \<and> stoi v = Inr (snd rule)
              \<and> validateLogLevel E (snd rule))"
  by (cases rule) (auto simp add: keptRule_def split: list.splits sum.splits)

lemma in_set_map_filter:
  "y \<in> set (List.map_filter f xs) \<longleftrightarrow> (\<exists>x \<in> set xs. f x = Some y)"
  by (induction xs) (auto simp add: List.map_filter_simps split: option.splits)

lemma parseRules_valid:
  "rule \<in> set (parseRules E ruleString) \<Longrightarrow> validateLogLevel E (snd rule)"
  by (auto simp add: parseRules_map_filter in_set_map_filter keptRule_Some_iff)


lemma isdigit_not_space: "isdigit c \<Longrightarrow> \<not> isspace c"
  by (auto simp add: isdigit_def isspace_def less_eq_char_def)

lemma sign_not_space: "\<not> isspace (CHR ''-'')" "\<not> isspace (CHR ''+'')"
  by (simp_all add: isspace_def)

lemma takeWhile_all: "list_all P xs \<Longrightarrow> takeWhile P xs = xs"
  by (induction xs) simp_all

lemma stoi_isInteger:
  assumes "isInteger v"
  shows "stoi v = (if integerValue v < - 2147483648 \<or> 2147483647 < integerValue v
                   then Inl out_of_range else Inr (integerValue v))"
proof (cases v)
  case Nil
  with assms show ?thesis by (simp add: isInteger_def)
next
  case (Cons c cs)
  show ?thesis
  proof (cases "c = CHR ''-'' \<or> c = CHR ''+''")
    case True
    with assms Cons have ds: "cs \<noteq> []" "list_all isdigit cs"
      by (auto simp add: isInteger_def)
    from True have "dropWhile isspace v = v"
      using Cons sign_not_space by auto
    then show ?thesis
      using True Cons ds
      by (auto simp add: stoi_def integerValue_def takeWhile_all Let_def)
  next
    case False
    with assms Cons have ds: "list_all isdigit (c # cs)"
      by (auto simp add: isInteger_def)
    then have "isdigit c" by simp
    then have "dropWhile isspace v = v"
      using Cons isdigit_not_space by simp
    then show ?thesis
      using False Cons takeWhile_all [OF ds]
      by (simp add: stoi_def integerValue_def Let_def)
  qed
qed


text \<open>
  C6, as stated, fails: the spec keeps a token only when its value part is an integer, and
  \<^verbatim>\<open>setLogRule\<close> keeps the token \<^verbatim>\<open>foo=3abc\<close> as the rule \<^verbatim>\<open>(foo, 3)\<close>, because \<^verbatim>\<open>std::stoi\<close>
  converts the digits it finds and ignores what follows them.
\<close>

theorem parseRules_keeps_non_integer_value:
  "split ''foo=3abc'' ''='' = [''foo'', ''3abc'']
   \<and> \<not> isInteger ''3abc''
   \<and> parseRules_spec specLevels ''foo=3abc'' = []
   \<and> parseRules specLevels ''foo=3abc'' = [(''foo'', 3)]"
  by code_simp

text \<open>
  C6, amended. For every rule string, \<^verbatim>\<open>setLogRule\<close> keeps, in the order of the string,
  exactly the tokens that split on \<^verbatim>\<open>=\<close> into exactly two parts and whose second part
  \<^verbatim>\<open>std::stoi\<close> converts to an integer that is a legal level; the rule carries the first
  part and that integer. Every other token is dropped without an error and without effect
  on the tokens around it. Where the second part is an integer and nothing else, this is
  the rule of the spec.
\<close>

theorem parseRules_keeps_converted_tokens:
  "parseRules E ruleString = List.map_filter (keptRule E) (split ruleString '','')
   \<and> (keptRule E token = Some rule
        \<longleftrightarrow> (\<exists>v. split token ''='' = [fst rule, v] \<and> stoi v = Inr (snd rule)
                 \<and> validateLogLevel E (snd rule)))
   \<and> (LastLogLevel E \<le> 2147483647 \<and> split token ''='' = [pattern, v] \<and> isInteger v
        \<longrightarrow> keptRule E token = specRule E token)"
proof (intro conjI impI)
  show "parseRules E ruleString = List.map_filter (keptRule E) (split ruleString '','')"
    by (rule parseRules_map_filter)
next
  show "keptRule E token = Some rule
        \<longleftrightarrow> (\<exists>v. split token ''='' = [fst rule, v] \<and> stoi v = Inr (snd rule)
                 \<and> validateLogLevel E (snd rule))"
    by (rule keptRule_Some_iff)
next
  assume a: "LastLogLevel E \<le> 2147483647 \<and> split token ''='' = [pattern, v] \<and> isInteger v"
  then have "stoi v = (if integerValue v < - 2147483648 \<or> 2147483647 < integerValue v
                       then Inl out_of_range else Inr (integerValue v))"
    by (simp add: stoi_isInteger)
  then show "keptRule E token = specRule E token"
    using a by (auto simp add: keptRule_def specRule_def validateLogLevel_def)
qed

theorem parseRules_keeps_converted_tokens_witness:
  "split ''foo=3abc,bar=9,baz,x=y,q= 4,a=2'' '','' =
     [''foo=3abc'', ''bar=9'', ''baz'', ''x=y'', ''q= 4'', ''a=2'']
   \<and> List.map_filter (keptRule specLevels) (split ''foo=3abc,bar=9,baz,x=y,q= 4,a=2'' '','')
       = [(''foo'', 3), (''q'', 4), (''a'', 2)]
   \<and> LastLogLevel specLevels \<le> 2147483647 \<and> split ''a=2'' ''='' = [''a'', ''2'']
   \<and> isInteger ''2''
   \<and> specRule specLevels ''a=2'' = Some (''a'', 2)
   \<and> keptRule specLevels ''a=2'' = Some (''a'', 2)"
proof -
  have e: "parseRules specLevels ''foo=3abc,bar=9,baz,x=y,q= 4,a=2''
      = [(''foo'', 3), (''q'', 4), (''a'', 2)]"
    by code_simp
  have s: "split ''foo=3abc,bar=9,baz,x=y,q= 4,a=2'' '','' =
     [''foo=3abc'', ''bar=9'', ''baz'', ''x=y'', ''q= 4'', ''a=2'']"
    by code_simp
  have h: "LastLogLevel specLevels \<le> 2147483647 \<and> split ''a=2'' ''='' = [''a'', ''2'']
     \<and> isInteger ''2''"
    by code_simp
  have k: "specRule specLevels ''a=2'' = Some (''a'', 2)"
    by code_simp
  show ?thesis
    using parseRules_keeps_converted_tokens
        [where E = specLevels and ruleString = "''foo=3abc,bar=9,baz,x=y,q= 4,a=2''"
           and token = "''a=2''" and pattern = "''a''" and v = "''2''"]
      e s h k
    by simp
qed


subsection \<open>Where the level \<^verbatim>\<open>NoLog\<close> can come from\<close>

lemma parseRules_not_NoLog:
  "\<not> validateLogLevel E (NoLog E) \<Longrightarrow> rule \<in> set (parseRules E ruleString)
     \<Longrightarrow> snd rule \<noteq> NoLog E"
  using parseRules_valid by fastforce

lemma ruleLevel_cases:
  "ruleLevel rs nm dflt = dflt \<or> ruleLevel rs nm dflt \<in> snd ` set rs"
proof (cases "matching nm rs = []")
  case True
  then show ?thesis by (simp add: ruleLevel_def)
next
  case False
  then have "last (matching nm rs) \<in> set (matching nm rs)"
    by (rule last_in_set)
  then have "last (matching nm rs) \<in> set rs"
    by (simp add: matching_def)
  with False show ?thesis
    by (simp add: ruleLevel_def)
qed

lemma ruleLevel_NoLog:
  assumes "\<forall>rule \<in> set rs. snd rule \<noteq> N" and "ruleLevel rs nm dflt = N"
  shows "dflt = N"
  using assms ruleLevel_cases [of rs nm dflt] by auto

text \<open>
  The invariant: no rule in force carries \<^verbatim>\<open>NoLog\<close>, and the category at a given address
  is at \<^verbatim>\<open>NoLog\<close> only if that is its default.
\<close>

lemma applyRules_NoLog:
  assumes "\<forall>rule \<in> set rs. snd rule \<noteq> N" and "d_level (applyRules rs d) = N"
  shows "d_defaultLevel (applyRules rs d) = N"
  using ruleLevel_NoLog [OF assms(1), of "d_name d" "d_defaultLevel d"] assms(2) by simp

lemma applyRule_NoLog:
  assumes "\<forall>rule \<in> set (rules r). snd rule \<noteq> N"
    and "d_level (objects r c) = N \<longrightarrow> d_defaultLevel (objects r c) = N"
  shows "d_level (objects (applyRule p r) c) = N
      \<longrightarrow> d_defaultLevel (objects (applyRule p r) c) = N"
proof (cases "c = p")
  case True
  then show ?thesis
    using applyRules_NoLog [OF assms(1), of "objects r p"] by simp
next
  case False
  then show ?thesis
    using assms(2) by simp
qed

lemma setLogRule_NoLog:
  assumes "\<forall>rule \<in> set (parseRules E s). snd rule \<noteq> N"
    and "d_level (objects r c) = N \<longrightarrow> d_defaultLevel (objects r c) = N"
  shows "d_level (objects (setLogRule E s r) c) = N
      \<longrightarrow> d_defaultLevel (objects (setLogRule E s r) c) = N"
proof (cases "c \<in> set (categories r)")
  case True
  then show ?thesis
    using applyRules_NoLog [OF assms(1), of "objects r c"] by (simp add: setLogRule_fields)
next
  case False
  then show ?thesis
    using assms(2) by (simp add: setLogRule_fields)
qed

lemma act_NoLog_invariant:
  assumes valid: "\<not> validateLogLevel E (NoLog E)"
    and rs: "\<forall>rule \<in> set (rules r). snd rule \<noteq> NoLog E"
    and obj: "d_level (objects r c) = NoLog E \<longrightarrow> d_defaultLevel (objects r c) = NoLog E"
    and a: "a \<noteq> SetLogLevel c (NoLog E)"
  shows "(\<forall>rule \<in> set (rules (act E a r)). snd rule \<noteq> NoLog E)
       \<and> (d_level (objects (act E a r) c) = NoLog E
            \<longrightarrow> d_defaultLevel (objects (act E a r) c) = NoLog E)"
proof (cases a)
  case (Register p)
  show ?thesis
  proof (cases "p \<in> set (categories r)")
    case True
    then show ?thesis
      using rs obj by (simp add: Register registerCategory_def)
  next
    case False
    have "d_level (objects (applyRule p (r\<lparr>categories := categories r @ [p]\<rparr>)) c) = NoLog E
      \<longrightarrow> d_defaultLevel (objects (applyRule p (r\<lparr>categories := categories r @ [p]\<rparr>)) c)
            = NoLog E"
      by (rule applyRule_NoLog) (simp_all add: rs obj)
    with False show ?thesis
      using rs by (simp add: Register registerCategory_def)
  qed
next
  case (Unregister p)
  show ?thesis
    using rs obj by (simp add: Unregister)
next
  case (SetLogRule s)
  have new: "\<forall>rule \<in> set (parseRules E s). snd rule \<noteq> NoLog E"
    using parseRules_not_NoLog [OF valid] by blast
  show ?thesis
    using new setLogRule_NoLog [OF new obj] by (simp add: SetLogRule setLogRule_fields)
next
  case (SetLogLevel p l)
  with a have "p \<noteq> c \<or> l \<noteq> NoLog E"
    by blast
  then show ?thesis
    using rs obj by (auto simp add: SetLogLevel on_object_def setLogLevel_def)
next
  case (SetLogLevelInt p l)
  show ?thesis
    using rs obj valid
    by (auto simp add: SetLogLevelInt on_object_def setLogLevel_int_def setLogLevel_def)
next
  case (ResetLogLevel p)
  show ?thesis
    using rs obj by (auto simp add: ResetLogLevel on_object_def resetLogLevel_def)
qed

lemma run_NoLog_invariant:
  assumes "\<not> validateLogLevel E (NoLog E)"
    and "SetLogLevel c (NoLog E) \<notin> set as"
    and "\<forall>rule \<in> set (rules r). snd rule \<noteq> NoLog E"
    and "d_level (objects r c) = NoLog E \<longrightarrow> d_defaultLevel (objects r c) = NoLog E"
  shows "(\<forall>rule \<in> set (rules (run E as r)). snd rule \<noteq> NoLog E)
       \<and> (d_level (objects (run E as r) c) = NoLog E
            \<longrightarrow> d_defaultLevel (objects (run E as r) c) = NoLog E)"
  using assms(2-4)
proof (induction as arbitrary: r)
  case Nil
  then show ?case by (simp add: run_def)
next
  case (Cons a as)
  from Cons.prems(1) have a: "a \<noteq> SetLogLevel c (NoLog E)"
    and as: "SetLogLevel c (NoLog E) \<notin> set as"
    by auto
  have step: "(\<forall>rule \<in> set (rules (act E a r)). snd rule \<noteq> NoLog E)
       \<and> (d_level (objects (act E a r) c) = NoLog E
            \<longrightarrow> d_defaultLevel (objects (act E a r) c) = NoLog E)"
    by (rule act_NoLog_invariant [OF assms(1) Cons.prems(2) Cons.prems(3) a])
  from step have s1: "\<forall>rule \<in> set (rules (act E a r)). snd rule \<noteq> NoLog E"
    and s2: "d_level (objects (act E a r) c) = NoLog E
            \<longrightarrow> d_defaultLevel (objects (act E a r) c) = NoLog E"
    by blast+
  have eq: "run E (a # as) r = run E as (act E a r)"
    by (simp add: run_def)
  show ?case
    unfolding eq by (rule Cons.IH [OF as s1 s2])
qed

text \<open>
  C7, as stated, fails. With the values of \<^verbatim>\<open>log.h\<close>, \<^verbatim>\<open>NoLog\<close> is 0 and lies inside the
  validated range: the rule string \<^verbatim>\<open>*=0\<close> parses to a rule that carries \<^verbatim>\<open>NoLog\<close>, and a
  category constructed with level 3, whose default stays 3, is at \<^verbatim>\<open>NoLog\<close> after
  \<^verbatim>\<open>setLogRule("*=0")\<close>, after the raw-integer \<^verbatim>\<open>setLogLevel(0)\<close> and after the typed
  \<^verbatim>\<open>setLogLevel(LogLevel::NoLog)\<close>, each taken alone.
\<close>

theorem NoLog_is_validated_and_reachable:
  "validateLogLevel headerLevels (NoLog headerLevels)
   \<and> parseRules headerLevels ''*=0'' = [(''*'', NoLog headerLevels)]
   \<and> logLevel (objects (LogCategory_new 2 ''baz'' 3 fooBar) 2) = 3
   \<and> logLevel (objects (run headerLevels [SetLogRule ''*=0'']
        (LogCategory_new 2 ''baz'' 3 fooBar)) 2) = NoLog headerLevels
   \<and> logLevel (objects (run headerLevels [SetLogLevelInt 2 0]
        (LogCategory_new 2 ''baz'' 3 fooBar)) 2) = NoLog headerLevels
   \<and> logLevel (objects (run headerLevels [SetLogLevel 2 (NoLog headerLevels)]
        (LogCategory_new 2 ''baz'' 3 fooBar)) 2) = NoLog headerLevels
   \<and> d_defaultLevel (objects (run headerLevels [SetLogRule ''*=0'']
        (LogCategory_new 2 ''baz'' 3 fooBar)) 2) = 3
   \<and> (3::int) \<noteq> NoLog headerLevels"
  by code_simp

text \<open>
  C7, amended. \<^verbatim>\<open>validateLogLevel\<close> accepts a raw integer exactly when it lies in
  \<^verbatim>\<open>[0, LastLogLevel]\<close>, and every rule produced by parsing a rule string carries a level of
  that range (first and second conjunct). \<^verbatim>\<open>NoLog\<close>, whose value is 0, lies inside the
  range (third conjunct). So, 0 being \<^verbatim>\<open>NoLog\<close> and a legal level, the rule string \<^verbatim>\<open>*=0\<close>
  parses to one rule that carries \<^verbatim>\<open>NoLog\<close>, \<^verbatim>\<open>setLogRule("*=0")\<close> puts every tracked category
  at \<^verbatim>\<open>NoLog\<close>, and so does the raw-integer \<^verbatim>\<open>setLogLevel(0)\<close>, whatever the default of the
  category (fourth conjunct); the typed \<^verbatim>\<open>setLogLevel\<close> sets any level, \<^verbatim>\<open>NoLog\<close> included
  (fifth conjunct). Only under a numbering that puts \<^verbatim>\<open>NoLog\<close> outside the range does no
  parsed rule carry \<^verbatim>\<open>NoLog\<close>, and then a category constructed with level \<open>L\<close> on a
  registry whose rules carry no \<^verbatim>\<open>NoLog\<close> is at \<^verbatim>\<open>NoLog\<close> after a run without the typed
  \<^verbatim>\<open>setLogLevel\<close> of this category to \<^verbatim>\<open>NoLog\<close> only if \<open>L\<close> is \<^verbatim>\<open>NoLog\<close> (last conjunct).
\<close>

theorem NoLog_validation_and_reachability:
  "(validateLogLevel E l \<longleftrightarrow> 0 \<le> l \<and> l \<le> LastLogLevel E)
   \<and> (\<forall>rule \<in> set (parseRules E ruleString). validateLogLevel E (snd rule))
   \<and> validateLogLevel headerLevels (NoLog headerLevels)
   \<and> (NoLog E = 0 \<and> 0 \<le> LastLogLevel E \<longrightarrow>
        parseRules E ''*=0'' = [(''*'', NoLog E)]
        \<and> (tracked \<in> set (categories r)
              \<longrightarrow> logLevel (objects (setLogRule E ''*=0'' r) tracked) = NoLog E)
        \<and> logLevel (setLogLevel_int E 0 d) = NoLog E)
   \<and> logLevel (setLogLevel (NoLog E) d) = NoLog E
   \<and> (\<not> validateLogLevel E (NoLog E) \<longrightarrow>
        (\<forall>rule \<in> set (parseRules E ruleString). snd rule \<noteq> NoLog E)
        \<and> ((\<forall>rule \<in> set (rules r). snd rule \<noteq> NoLog E)
             \<and> SetLogLevel category (NoLog E) \<notin> set as
             \<and> logLevel (objects (run E as (LogCategory_new category nm L r)) category) = NoLog E
            \<longrightarrow> L = NoLog E))"
proof -
  have range: "validateLogLevel E l \<longleftrightarrow> 0 \<le> l \<and> l \<le> LastLogLevel E"
    by (simp add: validateLogLevel_def)
  have parsed: "\<forall>rule \<in> set (parseRules E ruleString). validateLogLevel E (snd rule)"
    using parseRules_valid by blast
  have header: "validateLogLevel headerLevels (NoLog headerLevels)"
    by (simp add: validateLogLevel_def headerLevels_def)
  have zero: "NoLog E = 0 \<and> 0 \<le> LastLogLevel E \<longrightarrow>
        parseRules E ''*=0'' = [(''*'', NoLog E)]
        \<and> (tracked \<in> set (categories r)
              \<longrightarrow> logLevel (objects (setLogRule E ''*=0'' r) tracked) = NoLog E)
        \<and> logLevel (setLogLevel_int E 0 d) = NoLog E"
  proof
    assume h: "NoLog E = 0 \<and> 0 \<le> LastLogLevel E"
    have p: "parseRules E ''*=0'' = [(''*'', 0)]"
      using h
      by (simp add: parseRules_def parseRule_def split_def stoi_def isspace_def isdigit_def
          decimal_def digit_value_def validateLogLevel_def)
    have s: "tracked \<in> set (categories r)
        \<longrightarrow> logLevel (objects (setLogRule E ''*=0'' r) tracked) = 0"
      by (simp add: setLogRule_fields p logLevel_def ruleLevel_def matching_def)
    have i: "logLevel (setLogLevel_int E 0 d) = 0"
      using h by (simp add: setLogLevel_int_def setLogLevel_def logLevel_def validateLogLevel_def)
    show "parseRules E ''*=0'' = [(''*'', NoLog E)]
        \<and> (tracked \<in> set (categories r)
              \<longrightarrow> logLevel (objects (setLogRule E ''*=0'' r) tracked) = NoLog E)
        \<and> logLevel (setLogLevel_int E 0 d) = NoLog E"
      using h p s i by simp
  qed
  have typed: "logLevel (setLogLevel (NoLog E) d) = NoLog E"
    by (simp add: logLevel_def setLogLevel_def)
  have outside: "\<not> validateLogLevel E (NoLog E) \<longrightarrow>
        (\<forall>rule \<in> set (parseRules E ruleString). snd rule \<noteq> NoLog E)
        \<and> ((\<forall>rule \<in> set (rules r). snd rule \<noteq> NoLog E)
             \<and> SetLogLevel category (NoLog E) \<notin> set as
             \<and> logLevel (objects (run E as (LogCategory_new category nm L r)) category) = NoLog E
            \<longrightarrow> L = NoLog E)"
  proof (intro impI conjI)
    assume valid: "\<not> validateLogLevel E (NoLog E)"
    show "\<forall>rule \<in> set (parseRules E ruleString). snd rule \<noteq> NoLog E"
      using parseRules_not_NoLog [OF valid] by blast
  next
    assume valid: "\<not> validateLogLevel E (NoLog E)"
      and h: "(\<forall>rule \<in> set (rules r). snd rule \<noteq> NoLog E)
             \<and> SetLogLevel category (NoLog E) \<notin> set as
             \<and> logLevel (objects (run E as (LogCategory_new category nm L r)) category) = NoLog E"
    let ?r = "LogCategory_new category nm L r"
    from h have rs: "\<forall>rule \<in> set (rules ?r). snd rule \<noteq> NoLog E"
      by (simp add: LogCategory_new_fields)
    have obj: "d_level (objects ?r category) = NoLog E
        \<longrightarrow> d_defaultLevel (objects ?r category) = NoLog E"
      using h ruleLevel_NoLog [of "rules r" "NoLog E" nm L]
      by (auto simp add: LogCategory_new_fields)
    from h have as: "SetLogLevel category (NoLog E) \<notin> set as"
      by simp
    have "d_level (objects (run E as ?r) category) = NoLog E
        \<longrightarrow> d_defaultLevel (objects (run E as ?r) category) = NoLog E"
      using run_NoLog_invariant [OF valid as rs obj] by simp
    moreover have "d_defaultLevel (objects (run E as ?r) category) = L"
      by (simp add: run_defaultLevel LogCategory_new_fields)
    ultimately show "L = NoLog E"
      using h by (simp add: logLevel_def)
  qed
  show ?thesis
    using range parsed header zero typed outside by blast
qed

theorem NoLog_validation_and_reachability_witness:
  "NoLog headerLevels = 0 \<and> 0 \<le> LastLogLevel headerLevels
   \<and> parseRules headerLevels ''*=0'' = [(''*'', NoLog headerLevels)]
   \<and> 1 \<in> set (categories fooBar)
   \<and> logLevel (objects fooBar 1) = 3
   \<and> logLevel (objects (setLogRule headerLevels ''*=0'' fooBar) 1) = NoLog headerLevels
   \<and> logLevel (setLogLevel_int headerLevels 0 (objects fooBar 1)) = NoLog headerLevels
   \<and> \<not> validateLogLevel specLevels (NoLog specLevels)
   \<and> SetLogLevel 2 (NoLog specLevels)
        \<notin> set [SetLogRule ''baz=-1'', SetLogLevelInt 2 (NoLog specLevels)]
   \<and> logLevel (objects (run specLevels
        [SetLogRule ''baz=-1'', SetLogLevelInt 2 (NoLog specLevels)]
        (LogCategory_new 2 ''baz'' 3 (setLogRule specLevels ''zzz=2'' fooBar))) 2)
       \<noteq> NoLog specLevels
   \<and> logLevel (objects (run specLevels
        [SetLogRule ''baz=-1'', SetLogLevelInt 2 (NoLog specLevels)]
        (LogCategory_new 2 ''baz'' (NoLog specLevels) (setLogRule specLevels ''zzz=2'' fooBar))) 2)
       = NoLog specLevels"
proof -
  have h: "NoLog headerLevels = 0 \<and> 0 \<le> LastLogLevel headerLevels"
    by (simp add: headerLevels_def)
  have t: "1 \<in> set (categories fooBar)" and l: "logLevel (objects fooBar 1) = 3"
    by code_simp+
  have v: "\<not> validateLogLevel specLevels (NoLog specLevels)"
    by code_simp
  have rs: "\<forall>rule \<in> set (rules (setLogRule specLevels ''zzz=2'' fooBar)).
      snd rule \<noteq> NoLog specLevels"
    by code_simp
  have as: "SetLogLevel 2 (NoLog specLevels)
        \<notin> set [SetLogRule ''baz=-1'', SetLogLevelInt 2 (NoLog specLevels)]"
    by simp
  have at: "logLevel (objects (run specLevels
        [SetLogRule ''baz=-1'', SetLogLevelInt 2 (NoLog specLevels)]
        (LogCategory_new 2 ''baz'' (NoLog specLevels) (setLogRule specLevels ''zzz=2'' fooBar))) 2)
       = NoLog specLevels"
    by code_simp
  have three: "(3::int) \<noteq> NoLog specLevels"
    by (simp add: specLevels_def)
  have inside: "parseRules headerLevels ''*=0'' = [(''*'', NoLog headerLevels)]
     \<and> logLevel (objects (setLogRule headerLevels ''*=0'' fooBar) 1) = NoLog headerLevels
     \<and> logLevel (setLogLevel_int headerLevels 0 (objects fooBar 1)) = NoLog headerLevels"
    using NoLog_validation_and_reachability
        [where E = headerLevels and r = fooBar and tracked = 1 and d = "objects fooBar 1"]
      h t
    by blast
  have outside: "logLevel (objects (run specLevels
        [SetLogRule ''baz=-1'', SetLogLevelInt 2 (NoLog specLevels)]
        (LogCategory_new 2 ''baz'' 3 (setLogRule specLevels ''zzz=2'' fooBar))) 2)
       \<noteq> NoLog specLevels"
    using NoLog_validation_and_reachability
        [where E = specLevels and r = "setLogRule specLevels ''zzz=2'' fooBar"
           and as = "[SetLogRule ''baz=-1'', SetLogLevelInt 2 (NoLog specLevels)]"
           and category = 2 and nm = "''baz''" and L = 3]
      v rs as three
    by blast
  show ?thesis
    using h t l v as at inside outside by simp
qed

end
